theory Spec2Isabelle
  imports Complex_Main
begin

section \<open>Numbers and engine helpers\<close>

text \<open>
  A TypeScript \<open>number\<close> is modelled as a \<open>real\<close>: the arithmetic of the game code
  (sums, differences, comparisons, clamping) is taken exact and every value finite.
  Vectors of the rendering engine are pairs and triples of numbers; \<open>vadd\<close> and \<open>vscale\<close>
  are \<open>Vector3.add\<close> and \<open>Vector3.scale\<close>.
\<close>

type_synonym vec3 = "real \<times> real \<times> real"
type_synonym vec2 = "real \<times> real"

definition vadd :: "vec3 \<Rightarrow> vec3 \<Rightarrow> vec3" where
  "vadd a b = (case a of (ax, ay, az) \<Rightarrow> case b of (bx, by, bz) \<Rightarrow> (ax + bx, ay + by, az + bz))"

definition vscale :: "vec3 \<Rightarrow> real \<Rightarrow> vec3" where
  "vscale a k = (case a of (ax, ay, az) \<Rightarrow> (ax * k, ay * k, az * k))"

text \<open>
  Modelled from the spec: \<open>Scalar.Clamp\<close> is imported from the rendering engine and is
  not part of the sources; the spec calls it "simple numeric clamping (health in [0, max])".
  The engine computes \<open>Math.min(max, Math.max(min, value))\<close>.
\<close>

definition Scalar_Clamp :: "real \<Rightarrow> real \<Rightarrow> real \<Rightarrow> real" where
  "Scalar_Clamp v lo hi = min hi (max lo v)"


section \<open>The Farmer (src/player/farmer.ts)\<close>

text \<open>
  \<open>AnimatorState\<close> is declared in the animation module, which is not part of the
  sources; these are the members the Farmer uses.
\<close>

datatype AnimatorState = Idle | Run | Shoot | TakeHit | Death

datatype animator = Body | Weapon

text \<open>
  Calls into the engine and into sibling subsystems are recorded as effects, in the order
  the code makes them. \<open>AnimPlay a st loop\<close> is \<open>a.play(st, loop)\<close>, with \<open>None\<close> when the
  second argument is left out. \<open>NewBullet speed range\<close> is \<open>new Bullet(..)\<close>,
  \<open>SetTimeout ms\<close> is \<open>window.setTimeout(.., ms)\<close>.
\<close>

datatype fx =
    AnimPlay animator AnimatorState "bool option"
  | ControllerDisabled bool
  | NewBullet real real
  | SetTimeout nat
  | RootRotation vec2
  | RadarUpdateBlip

record Farmer =
  gunCooldown :: bool
  isMoving :: bool
  isFiring :: bool
  hitTimer :: real
  maxHealth :: real
  health :: real
  movementSpeed :: real
  weaponDamage :: real
  weaponRange :: real
  weaponSpeed :: real
  position :: vec3

text \<open>The player section of \<open>Config\<close> (gameplay/config, not part of the sources).\<close>

record PlayerConfig =
  player_health :: real
  player_speed :: real
  player_weaponDamage :: real
  player_weaponRange :: real
  player_weaponSpeed :: real

text \<open>The constructor; \<open>p0\<close> is the position of the instantiated root node.\<close>

definition Farmer_new :: "PlayerConfig \<Rightarrow> vec3 \<Rightarrow> Farmer" where
  "Farmer_new cfg p0 =
     \<lparr> gunCooldown = False, isMoving = False, isFiring = False, hitTimer = 0.25,
       maxHealth = player_health cfg, health = player_health cfg,
       movementSpeed = player_speed cfg, weaponDamage = player_weaponDamage cfg,
       weaponRange = player_weaponRange cfg, weaponSpeed = player_weaponSpeed cfg,
       position = p0 \<rparr>"

subsection \<open>Handlers of the character controller\<close>

text \<open>
  \<open>onMove\<close>: \<open>engineDelta\<close> is \<open>BabylonStore.engine.getDeltaTime()\<close> (milliseconds) and
  \<open>nav\<close> is \<open>Navigation.getClosestPoint\<close>, both outside the sources.
\<close>

definition onMove :: "(vec3 \<Rightarrow> vec3) \<Rightarrow> real \<Rightarrow> vec2 \<Rightarrow> Farmer \<Rightarrow> Farmer \<times> fx list" where
  "onMove nav engineDelta dir f =
     (let deltaTime = engineDelta / 1000;
          moveDir = vscale (snd dir, 0, fst dir) (movementSpeed f * deltaTime)
      in (f\<lparr>position := nav (vadd (position f) moveDir), isMoving := True\<rparr>,
          [AnimPlay Body Run None]))"

definition onMoveEnd :: "Farmer \<Rightarrow> Farmer \<times> fx list" where
  "onMoveEnd f = (f\<lparr>isMoving := False\<rparr>, [])"

definition onFire :: "Farmer \<Rightarrow> Farmer \<times> fx list" where
  "onFire f =
     (let f1 = f\<lparr>isFiring := True\<rparr>;
          e1 = [AnimPlay Weapon Shoot None];
          e2 = (if \<not> isMoving f1 then e1 @ [AnimPlay Body Shoot None] else e1)
      in if gunCooldown f1 then (f1, e2)
         else (f1\<lparr>gunCooldown := True\<rparr>,
               e2 @ [NewBullet (weaponSpeed f1) (weaponRange f1), SetTimeout 200]))"

text \<open>The callback handed to \<open>window.setTimeout\<close> by \<open>onFire\<close>.\<close>

definition cooldownCallback :: "Farmer \<Rightarrow> Farmer \<times> fx list" where
  "cooldownCallback f = (f\<lparr>gunCooldown := False\<rparr>, [])"

definition onFireEnd :: "Farmer \<Rightarrow> Farmer \<times> fx list" where
  "onFireEnd f = (f\<lparr>isFiring := False\<rparr>, [])"

definition onRotate :: "vec2 \<Rightarrow> Farmer \<Rightarrow> Farmer \<times> fx list" where
  "onRotate dir f = (f, [RootRotation dir])"

subsection \<open>Per-frame update and collisions\<close>

text \<open>\<open>dt\<close> is \<open>BabylonStore.deltaTime\<close>.\<close>

definition Farmer_update :: "real \<Rightarrow> Farmer \<Rightarrow> Farmer \<times> fx list" where
  "Farmer_update dt f =
     (if health f \<le> 0 then (f, [AnimPlay Body Death (Some False), ControllerDisabled True])
      else
        (let e1 = (if \<not> isFiring f
                   then AnimPlay Weapon Idle None #
                        (if \<not> isMoving f \<and> hitTimer f \<le> 0 then [AnimPlay Body Idle None] else [])
                   else [])
         in (f\<lparr>hitTimer := hitTimer f - dt\<rparr>, e1 @ [RadarUpdateBlip])))"

text \<open>
  What \<open>onCollide\<close> reads of the other collidable: whether it is a \<open>StabberRabbit\<close>,
  and then its \<open>attacking\<close> flag and its \<open>damage\<close>.
\<close>

datatype collidable = StabberRabbit bool real | OtherCollidable

definition onCollide :: "collidable \<Rightarrow> Farmer \<Rightarrow> Farmer \<times> fx list" where
  "onCollide c f =
     (case c of
        StabberRabbit attacking damage \<Rightarrow>
          if attacking \<and> hitTimer f \<le> 0
          then (f\<lparr>hitTimer := 0.25, health := health f - damage\<rparr>,
                [AnimPlay Body TakeHit (Some False)])
          else (f, [])
      | OtherCollidable \<Rightarrow> (f, []))"

subsection \<open>Stat modifiers\<close>

definition modifyHealth :: "real \<Rightarrow> Farmer \<Rightarrow> Farmer" where
  "modifyHealth v f = f\<lparr>health := Scalar_Clamp (health f + v) 0 (maxHealth f)\<rparr>"

definition modifyMaxHealth :: "real \<Rightarrow> Farmer \<Rightarrow> Farmer" where
  "modifyMaxHealth v f =
     (let f1 = f\<lparr>maxHealth := maxHealth f + v\<rparr> in modifyHealth (health f1) f1)"

definition modifyMovementSpeed :: "real \<Rightarrow> Farmer \<Rightarrow> Farmer" where
  "modifyMovementSpeed v f = f\<lparr>movementSpeed := movementSpeed f + v\<rparr>"

definition modifyWeaponDamage :: "real \<Rightarrow> Farmer \<Rightarrow> Farmer" where
  "modifyWeaponDamage v f = f\<lparr>weaponDamage := weaponDamage f + v\<rparr>"

definition modifyWeaponRange :: "real \<Rightarrow> Farmer \<Rightarrow> Farmer" where
  "modifyWeaponRange v f = f\<lparr>weaponRange := weaponRange f + v\<rparr>"

definition modifyWeaponSpeed :: "real \<Rightarrow> Farmer \<Rightarrow> Farmer" where
  "modifyWeaponSpeed v f = f\<lparr>weaponSpeed := weaponSpeed f + v\<rparr>"

subsection \<open>Event sequences\<close>

text \<open>
  Everything that can run on a Farmer between construction and disposal: the handlers the
  controller fires, the deferred cooldown callback, the frame update, a collision and the
  stat modifiers. The Farmer's flags are private fields, so nothing else writes them.
\<close>

datatype event =
    EvMove real vec2
  | EvMoveEnd
  | EvFire
  | EvFireEnd
  | EvRotate vec2
  | EvCooldownElapsed
  | EvUpdate real
  | EvCollide collidable
  | EvModifyMaxHealth real
  | EvModifyHealth real
  | EvModifyMovementSpeed real
  | EvModifyWeaponDamage real
  | EvModifyWeaponRange real
  | EvModifyWeaponSpeed real

fun handle :: "(vec3 \<Rightarrow> vec3) \<Rightarrow> event \<Rightarrow> Farmer \<Rightarrow> Farmer \<times> fx list" where
  "handle nav (EvMove engineDelta dir) f = onMove nav engineDelta dir f"
| "handle nav EvMoveEnd f = onMoveEnd f"
| "handle nav EvFire f = onFire f"
| "handle nav EvFireEnd f = onFireEnd f"
| "handle nav (EvRotate dir) f = onRotate dir f"
| "handle nav EvCooldownElapsed f = cooldownCallback f"
| "handle nav (EvUpdate dt) f = Farmer_update dt f"
| "handle nav (EvCollide c) f = onCollide c f"
| "handle nav (EvModifyMaxHealth v) f = (modifyMaxHealth v f, [])"
| "handle nav (EvModifyHealth v) f = (modifyHealth v f, [])"
| "handle nav (EvModifyMovementSpeed v) f = (modifyMovementSpeed v f, [])"
| "handle nav (EvModifyWeaponDamage v) f = (modifyWeaponDamage v f, [])"
| "handle nav (EvModifyWeaponRange v) f = (modifyWeaponRange v f, [])"
| "handle nav (EvModifyWeaponSpeed v) f = (modifyWeaponSpeed v f, [])"

fun run :: "(vec3 \<Rightarrow> vec3) \<Rightarrow> event list \<Rightarrow> Farmer \<Rightarrow> Farmer \<times> fx list" where
  "run nav [] f = (f, [])"
| "run nav (e # es) f =
     (case handle nav e f of (f1, out1) \<Rightarrow>
        case run nav es f1 of (f2, out2) \<Rightarrow> (f2, out1 @ out2))"

fun isBullet :: "fx \<Rightarrow> bool" where
  "isBullet (NewBullet s r) = True"
| "isBullet _ = False"

definition bullets :: "fx list \<Rightarrow> nat" where
  "bullets out = length (filter isBullet out)"


text \<open>The invariant of the health stat: \<open>health\<close> lies in \<open>[0, maxHealth]\<close>.\<close>

definition healthBounded :: "Farmer \<Rightarrow> bool" where
  "healthBounded f = (0 \<le> health f \<and> health f \<le> maxHealth f)"

text \<open>A Farmer with the given health and maximal health, used in the examples below.\<close>

definition exampleFarmer :: "real \<Rightarrow> real \<Rightarrow> Farmer" where
  "exampleFarmer h m =
     \<lparr> gunCooldown = False, isMoving = False, isFiring = False, hitTimer = 0,
       maxHealth = m, health = h, movementSpeed = 5, weaponDamage = 10,
       weaponRange = 5, weaponSpeed = 20, position = (0, 0, 0) \<rparr>"


section \<open>The Garden's spawn points (src/environment/garden.ts)\<close>

text \<open>
  What the game code reads of a \<open>TransformNode\<close> of the scene graph: its name, its
  position and \<open>childMeshes\<close>, the result of \<open>getChildMeshes()\<close> (the names of the meshes
  attached below the node).
\<close>

record TransformNode =
  node_name :: string
  node_position :: vec3
  childMeshes :: "string list"

record Garden =
  burrowSpawnPoints :: "TransformNode list"
  carrotSpawnPoints :: "TransformNode list"

text \<open>
  Reading a JavaScript array at an integer: \<open>None\<close> is \<open>undefined\<close>, the value of a read
  outside \<open>0 .. length - 1\<close>.
\<close>

definition js_index :: "'a list \<Rightarrow> int \<Rightarrow> 'a option" where
  "js_index xs i = (if 0 \<le> i \<and> i < int (length xs) then Some (xs ! nat i) else None)"

text \<open>
  The loop condition \<open>!node || node.getChildMeshes().length != 0\<close>; a node object is
  always truthy, so \<open>!node\<close> holds of \<open>undefined\<close> only.
\<close>

definition retry :: "TransformNode option \<Rightarrow> bool" where
  "retry node = (case node of None \<Rightarrow> True | Some n \<Rightarrow> length (childMeshes n) \<noteq> 0)"

text \<open>
  The retry loop shared by \<open>getRandomBurrowNode\<close> and \<open>getRandomCarrotNode\<close>, which differ
  in the array only. \<open>MathUtil.randomInt\<close> is not part of the sources: the integers it
  returns, call after call, are the list \<open>draws\<close>. The loop may run forever, so it is run
  on the draws given: \<open>Some node\<close> is the node returned, \<open>None\<close> says that the loop is
  still running when every draw of the list has been used.
\<close>

fun spawnPointLoop :: "TransformNode list \<Rightarrow> TransformNode option \<Rightarrow> int list \<Rightarrow> TransformNode option" where
  "spawnPointLoop pts node [] = (if retry node then None else node)"
| "spawnPointLoop pts node (r # draws) =
     (if retry node then spawnPointLoop pts (js_index pts r) draws else node)"

definition getRandomBurrowNode :: "Garden \<Rightarrow> int list \<Rightarrow> TransformNode option" where
  "getRandomBurrowNode g draws = spawnPointLoop (burrowSpawnPoints g) None draws"

definition getRandomCarrotNode :: "Garden \<Rightarrow> int list \<Rightarrow> TransformNode option" where
  "getRandomCarrotNode g draws = spawnPointLoop (carrotSpawnPoints g) None draws"

text \<open>A spawn point is free when it has no attached child mesh.\<close>

definition free :: "TransformNode \<Rightarrow> bool" where
  "free n = (childMeshes n = [])"


text \<open>A draw hits when it reads a free node of the array.\<close>

definition hit :: "TransformNode list \<Rightarrow> int \<Rightarrow> bool" where
  "hit pts r = (\<not> retry (js_index pts r))"

text \<open>
  Two gardens for the examples below: one with a free burrow point and a free carrot
  point, one with every point taken.
\<close>

definition exampleNode :: "string \<Rightarrow> string list \<Rightarrow> TransformNode" where
  "exampleNode nm ms = \<lparr> node_name = nm, node_position = (0, 0, 0), childMeshes = ms \<rparr>"

definition exampleGarden :: Garden where
  "exampleGarden =
     \<lparr> burrowSpawnPoints = [exampleNode ''B0'' [''Burrow''], exampleNode ''B1'' []],
       carrotSpawnPoints = [exampleNode ''C0'' [], exampleNode ''C1'' [''Carrot'']] \<rparr>"

definition fullGarden :: Garden where
  "fullGarden =
     \<lparr> burrowSpawnPoints = [exampleNode ''B0'' [''Burrow'']],
       carrotSpawnPoints = [exampleNode ''C0'' [''Carrot'']] \<rparr>"


section \<open>Burrows (the Burrow class of src/index.ts)\<close>

text \<open>
  Burrows are objects compared by identity (\<open>bur !== this\<close>), so a burrow is a reference
  into a store of objects. \<open>burrows\<close> is the static list \<open>Burrow._burrows\<close>, \<open>time\<close> and
  \<open>deltaTime\<close> are the clock of \<open>BabylonStore\<close>, and \<open>trace\<close> records, in order, the calls
  into the engine and the other subsystems together with every entry into \<open>update()\<close>.
\<close>

type_synonym ref = nat

text \<open>
  The code checks nothing before it dereferences: reading \<open>position\<close> of a \<open>null\<close> parent
  throws a \<open>TypeError\<close>. An operation that can throw returns \<open>Inl\<close> of the error and of
  the world as it is when the error is thrown, and \<open>Inr\<close> of the world otherwise.
\<close>

datatype error = TypeError

datatype bfx =
    SoundPlay string vec3
  | RootDispose ref
  | NewStabberRabbit vec3
  | UpdateCall ref

text \<open>
  \<open>root_parent\<close> is \<open>this.#_root.parent\<close>: the spawn point the constructor attaches the
  root to, and \<open>None\<close> (\<open>null\<close>) once the root has been disposed, since the engine's
  \<open>dispose()\<close> takes a node off its parent.
\<close>

record Burrow =
  root_parent :: "TransformNode option"
  spawnTimer :: real
  disposeTime :: real

record World =
  burrows :: "ref list"
  objs :: "ref \<Rightarrow> Burrow"
  next_ref :: ref
  time :: real
  deltaTime :: real
  trace :: "bfx list"

text \<open>
  The constants \<open>Config.burrow.spawnFrequency.min\<close> and \<open>.max\<close> (gameplay/config, not
  part of the sources). The random functions of \<open>Config\<close> are not modelled: what each call
  returns is a parameter of the operation that makes the call.
\<close>

record BurrowConfig =
  burrow_spawnFrequency_min :: real
  burrow_spawnFrequency_max :: real

text \<open>
  \<open>modifyDifficulty\<close>: \<open>randomRange lo hi\<close> is what the engine's
  \<open>Scalar.RandomRange(lo, hi)\<close> returns in this call.
\<close>

definition modifyDifficulty ::
  "BurrowConfig \<Rightarrow> (real \<Rightarrow> real \<Rightarrow> real) \<Rightarrow> real \<Rightarrow> ref \<Rightarrow> World \<Rightarrow> World" where
  "modifyDifficulty cfg randomRange modifier this w =
     (let b = objs w this;
          newMax = spawnTimer b - burrow_spawnFrequency_min cfg * modifier
      in w\<lparr>objs := (objs w)(this := b\<lparr>spawnTimer :=
             randomRange (burrow_spawnFrequency_max cfg) newMax\<rparr>)\<rparr>)"

text \<open>
  The constructor. \<open>timeLimit\<close> is what \<open>Config.burrow.randomTimeLimit()\<close> returns,
  \<open>rabbitFreq\<close> what \<open>Config.stabberRabbit.randomSpawnFrequency()\<close> returns,
  \<open>randomRange\<close> the engine's \<open>Scalar.RandomRange\<close> as in \<open>modifyDifficulty\<close> and
  \<open>modifier\<close> what \<open>round.getDifficultyModifier()\<close> returns. The new object gets the
  next unused reference.
\<close>

definition Burrow_new ::
  "BurrowConfig \<Rightarrow> real \<Rightarrow> real \<Rightarrow> (real \<Rightarrow> real \<Rightarrow> real) \<Rightarrow> real \<Rightarrow> TransformNode \<Rightarrow> World
     \<Rightarrow> ref \<times> World" where
  "Burrow_new cfg timeLimit rabbitFreq randomRange modifier parent w =
     (let this = next_ref w;
          w1 = w\<lparr>trace := trace w @ [SoundPlay ''Burrow'' (node_position parent)]\<rparr>;
          b = \<lparr> root_parent = Some parent, spawnTimer = rabbitFreq,
                disposeTime = time w1 + timeLimit \<rparr>;
          w2 = w1\<lparr>objs := (objs w1)(this := b), next_ref := Suc this\<rparr>;
          w3 = w2\<lparr>burrows := burrows w2 @ [this]\<rparr>
      in (this, modifyDifficulty cfg randomRange modifier this w3))"

definition dispose :: "ref \<Rightarrow> World \<Rightarrow> World" where
  "dispose this w =
     w\<lparr>trace := trace w @ [RootDispose this],
       objs := (objs w)(this := (objs w this)\<lparr>root_parent := None\<rparr>),
       burrows := filter (\<lambda>bur. bur \<noteq> this) (burrows w)\<rparr>"

text \<open>
  \<open>update()\<close>; \<open>freq\<close> is what \<open>Config.burrow.randomSpawnFrequency()\<close> returns if this
  call makes it. The argument of \<open>new StabberRabbit(..)\<close> is evaluated first, so a burrow
  whose root has lost its parent throws there, with its spawn timer already taken down
  and before a rabbit is created or the timer is set anew.
\<close>

definition Burrow_update :: "real \<Rightarrow> ref \<Rightarrow> World \<Rightarrow> error \<times> World + World" where
  "Burrow_update freq this w =
     (let w0 = w\<lparr>trace := trace w @ [UpdateCall this]\<rparr>;
          b = objs w0 this
      in if disposeTime b < time w0 then Inr (dispose this w0)
         else
           (let b1 = b\<lparr>spawnTimer := spawnTimer b - deltaTime w0\<rparr>;
                w1 = w0\<lparr>objs := (objs w0)(this := b1)\<rparr>
            in if spawnTimer b1 \<le> 0
               then (case root_parent b1 of
                       None \<Rightarrow> Inl (TypeError, w1)
                     | Some parent \<Rightarrow>
                         Inr (w1\<lparr>trace := trace w1 @ [NewStabberRabbit (node_position parent)],
                                 objs := (objs w1)(this := b1\<lparr>spawnTimer := freq\<rparr>)\<rparr>))
               else Inr w1))"

text \<open>Whether an operation threw, and the world it left behind.\<close>

definition threw :: "error \<times> World + World \<Rightarrow> bool" where
  "threw r = (case r of Inl x \<Rightarrow> True | Inr w \<Rightarrow> False)"

definition world_after :: "error \<times> World + World \<Rightarrow> World" where
  "world_after r = (case r of Inl x \<Rightarrow> snd x | Inr w \<Rightarrow> w)"

text \<open>
  \<open>updateAll()\<close>: the \<open>for\<close> loop reads \<open>this._burrows\<close> afresh in its condition and in
  its body at every turn, and an error thrown by an \<open>update()\<close> ends it. \<open>freqs i\<close> is the
  random spawn frequency at hand in turn \<open>i\<close>.
\<close>

function updateAll_loop :: "(nat \<Rightarrow> real) \<Rightarrow> nat \<Rightarrow> World \<Rightarrow> error \<times> World + World" where
  "updateAll_loop freqs i w =
     (if i < length (burrows w)
      then (case Burrow_update (freqs i) (burrows w ! i) w of
              Inl x \<Rightarrow> Inl x
            | Inr w' \<Rightarrow> updateAll_loop freqs (Suc i) w')
      else Inr w)"
  by pat_completeness auto
termination
proof (relation "measure (\<lambda>(freqs, i, w). length (burrows w) - i)")
  show "wf (measure (\<lambda>(freqs, i, w). length (burrows w) - i))"
    by simp
next
  fix freqs :: "nat \<Rightarrow> real" and i :: nat and w w' :: World
  assume less: "i < length (burrows w)"
    and step: "Burrow_update (freqs i) (burrows w ! i) w = Inr w'"
  from step have "length (burrows w') \<le> length (burrows w)"
    by (auto simp add: Burrow_update_def dispose_def Let_def split: if_splits option.splits)
  with less show "((freqs, Suc i, w'), (freqs, i, w))
        \<in> measure (\<lambda>(freqs, i, w). length (burrows w) - i)"
    by simp
qed

definition updateAll :: "(nat \<Rightarrow> real) \<Rightarrow> World \<Rightarrow> error \<times> World + World" where
  "updateAll freqs w = updateAll_loop freqs 0 w"

function disposeAll :: "World \<Rightarrow> World" where
  "disposeAll w =
     (if length (burrows w) > 0 then disposeAll (dispose (burrows w ! 0) w) else w)"
  by pat_completeness auto
termination
proof (relation "measure (\<lambda>w. length (burrows w))")
  show "wf (measure (\<lambda>w. length (burrows w)))"
    by simp
next
  fix w :: World
  assume "0 < length (burrows w)"
  then obtain b bs where "burrows w = b # bs"
    by (cases "burrows w") auto
  then have "length (burrows (dispose (burrows w ! 0) w)) < length (burrows w)"
    by (simp add: dispose_def less_Suc_eq_le)
  then show "(dispose (burrows w ! 0) w, w) \<in> measure (\<lambda>w. length (burrows w))"
    by simp
qed

text \<open>
  The equations of the two loops are applied by hand below: each unfolds the loop once.
\<close>

declare updateAll_loop.simps [simp del]
declare disposeAll.simps [simp del]

text \<open>
  In a trace: the burrows whose \<open>update()\<close> was entered, the positions at which a
  \<open>StabberRabbit\<close> was created and the burrows whose root was disposed, each in order.
\<close>

fun updated :: "bfx list \<Rightarrow> ref list" where
  "updated [] = []"
| "updated (UpdateCall r # t) = r # updated t"
| "updated (x # t) = updated t"

fun spawned :: "bfx list \<Rightarrow> vec3 list" where
  "spawned [] = []"
| "spawned (NewStabberRabbit p # t) = p # spawned t"
| "spawned (x # t) = spawned t"

fun disposed :: "bfx list \<Rightarrow> ref list" where
  "disposed [] = []"
| "disposed (RootDispose r # t) = r # disposed t"
| "disposed (x # t) = disposed t"


text \<open>
  The static list is in order when no burrow occurs in it twice and every reference in
  it has been handed out by the constructor.
\<close>

definition registry_ok :: "World \<Rightarrow> bool" where
  "registry_ok w = (distinct (burrows w) \<and> list_all (\<lambda>b. b < next_ref w) (burrows w))"

text \<open>
  A world for the examples below, at time 10 with a frame of 1/2: burrow 0 has passed
  its deadline 5, burrow 1 is live with 3 left on its spawn timer, burrow 2 is live with
  1/4 left.
\<close>

definition examplePoint :: TransformNode where
  "examplePoint =
     \<lparr> node_name = ''SpawnPoint'', node_position = (1, 0, 2), childMeshes = [''Burrow''] \<rparr>"

definition exampleBurrow :: "real \<Rightarrow> real \<Rightarrow> Burrow" where
  "exampleBurrow timer deadline =
     \<lparr> root_parent = Some examplePoint, spawnTimer = timer, disposeTime = deadline \<rparr>"

definition exampleWorld :: World where
  "exampleWorld =
     \<lparr> burrows = [0, 1, 2],
       objs = (\<lambda>r. if r = 0 then exampleBurrow 3 5 else if r = 1 then exampleBurrow 3 60 else exampleBurrow (1/4) 60),
       next_ref = 3, time = 10, deltaTime = 1/2, trace = [] \<rparr>"

definition exampleConfig :: BurrowConfig where
  "exampleConfig = \<lparr> burrow_spawnFrequency_min = 2, burrow_spawnFrequency_max = 6 \<rparr>"


section \<open>Properties of the Farmer\<close>

text \<open>
  C5. For every value, \<open>modifyHealth(value)\<close> sets health to the clamp of
  \<open>health + value\<close> into \<open>[0, maxHealth]\<close>, that is \<open>min maxHealth (max 0 (health + value))\<close>,
  and changes no other stat: maxHealth, movementSpeed, weaponDamage, weaponRange and
  weaponSpeed are unchanged (and so are the flags, the hit timer and the position).
\<close>

theorem modifyHealth_clamps_only_health:
  "health (modifyHealth v f) = min (maxHealth f) (max 0 (health f + v))
   \<and> maxHealth (modifyHealth v f) = maxHealth f
   \<and> movementSpeed (modifyHealth v f) = movementSpeed f
   \<and> weaponDamage (modifyHealth v f) = weaponDamage f
   \<and> weaponRange (modifyHealth v f) = weaponRange f
   \<and> weaponSpeed (modifyHealth v f) = weaponSpeed f
   \<and> gunCooldown (modifyHealth v f) = gunCooldown f
   \<and> isMoving (modifyHealth v f) = isMoving f
   \<and> isFiring (modifyHealth v f) = isFiring f
   \<and> hitTimer (modifyHealth v f) = hitTimer f
   \<and> position (modifyHealth v f) = position f"
  by (simp add: modifyHealth_def Scalar_Clamp_def)

text \<open>
  Where the bound is kept. A Farmer whose health lies in \<open>[0, maxHealth]\<close> keeps it there
  through \<open>modifyHealth\<close>, through \<open>update\<close> (which does not write health), through
  \<open>modifyMaxHealth(value)\<close> when the new maximum \<open>maxHealth + value\<close> is not negative, and
  through a collision with anything but a \<open>StabberRabbit\<close>.
\<close>

lemma health_bound_where_kept:
  "healthBounded f \<Longrightarrow>
     healthBounded (modifyHealth v f)
   \<and> healthBounded (fst (Farmer_update dt f))
   \<and> (0 \<le> maxHealth f + v \<longrightarrow> healthBounded (modifyMaxHealth v f))
   \<and> healthBounded (fst (onCollide OtherCollidable f))"
  by (auto simp add: healthBounded_def modifyMaxHealth_def modifyHealth_def Scalar_Clamp_def
      Let_def Farmer_update_def onCollide_def)

text \<open>
  A hit that is taken writes \<open>health - damage\<close> as it is, so the bound holds afterwards
  exactly when the damage lies between \<open>health - maxHealth\<close> and \<open>health\<close>.
\<close>

lemma onCollide_hit_bound:
  "hitTimer f \<le> 0 \<Longrightarrow>
     healthBounded (fst (onCollide (StabberRabbit True damage) f)) =
       (health f - maxHealth f \<le> damage \<and> damage \<le> health f)"
  by (auto simp add: healthBounded_def onCollide_def)

text \<open>
  C1 fails on the code: \<open>onCollide\<close> does not keep health in \<open>[0, maxHealth]\<close>. A Farmer
  with health 5 of 100 and no hit timer running, hit by an attacking \<open>StabberRabbit\<close> of
  damage 10, is left with health -5, where \<open>modifyHealth(-10)\<close> on the same Farmer clamps
  to 0 and keeps the bound.
\<close>

theorem onCollide_breaks_health_bound:
  "healthBounded (exampleFarmer 5 100)
   \<and> hitTimer (exampleFarmer 5 100) \<le> 0
   \<and> health (fst (onCollide (StabberRabbit True 10) (exampleFarmer 5 100))) = - 5
   \<and> maxHealth (fst (onCollide (StabberRabbit True 10) (exampleFarmer 5 100))) = 100
   \<and> \<not> healthBounded (fst (onCollide (StabberRabbit True 10) (exampleFarmer 5 100)))
   \<and> health (modifyHealth (- 10) (exampleFarmer 5 100)) = 0
   \<and> healthBounded (modifyHealth (- 10) (exampleFarmer 5 100))"
  by (simp add: healthBounded_def exampleFarmer_def onCollide_def modifyHealth_def
      Scalar_Clamp_def)

text \<open>
  \<open>modifyMaxHealth\<close> with a new maximum below zero leaves health at that maximum: a Farmer
  with health 50 of 100 whose maximum is lowered by 200 has health -100 of -100.
\<close>

lemma modifyMaxHealth_negative_maximum:
  "healthBounded (exampleFarmer 50 100)
   \<and> health (modifyMaxHealth (- 200) (exampleFarmer 50 100)) = - 100
   \<and> maxHealth (modifyMaxHealth (- 200) (exampleFarmer 50 100)) = - 100
   \<and> \<not> healthBounded (modifyMaxHealth (- 200) (exampleFarmer 50 100))"
  by (simp add: healthBounded_def exampleFarmer_def modifyMaxHealth_def modifyHealth_def
      Scalar_Clamp_def)

text \<open>
  C9. \<open>modifyMaxHealth(value)\<close> adds \<open>value\<close> to maxHealth and then calls \<open>modifyHealth\<close>
  with the current health, so the new health is the clamp of twice the old health into
  \<open>[0, old maxHealth + value]\<close>: health is doubled when the double fits under the new
  maximum, and set to the new maximum when the double exceeds it.
\<close>

theorem modifyMaxHealth_doubles_health:
  "maxHealth (modifyMaxHealth v f) = maxHealth f + v
   \<and> health (modifyMaxHealth v f) = Scalar_Clamp (2 * health f) 0 (maxHealth f + v)
   \<and> (0 \<le> health f \<and> 2 * health f \<le> maxHealth f + v \<longrightarrow>
        health (modifyMaxHealth v f) = 2 * health f)
   \<and> (0 \<le> maxHealth f + v \<and> maxHealth f + v \<le> 2 * health f \<longrightarrow>
        health (modifyMaxHealth v f) = maxHealth f + v)"
  by (simp add: modifyMaxHealth_def modifyHealth_def Scalar_Clamp_def Let_def)

theorem modifyMaxHealth_doubles_health_witness:
  "0 \<le> health (exampleFarmer 30 100) \<and> 2 * health (exampleFarmer 30 100) \<le> maxHealth (exampleFarmer 30 100) + 10
   \<and> health (modifyMaxHealth 10 (exampleFarmer 30 100)) = 60
   \<and> maxHealth (modifyMaxHealth 10 (exampleFarmer 30 100)) = 110
   \<and> 0 \<le> maxHealth (exampleFarmer 80 100) + 10 \<and> maxHealth (exampleFarmer 80 100) + 10 \<le> 2 * health (exampleFarmer 80 100)
   \<and> health (modifyMaxHealth 10 (exampleFarmer 80 100)) = 110"
  using modifyMaxHealth_doubles_health [of 10 "exampleFarmer 30 100"]
        modifyMaxHealth_doubles_health [of 10 "exampleFarmer 80 100"]
  by (simp add: exampleFarmer_def)

text \<open>
  C8. \<open>update()\<close> picks the animation from the flags. With health at or below zero it
  plays Death without looping on the body animator and disables the controller, and does
  nothing else. Otherwise, with the firing flag clear the weapon animator plays Idle, and
  the body animator plays Idle as well when the moving flag is clear and the hit timer is
  at or below zero; the hit timer then goes down by the frame's delta time.
\<close>

theorem Farmer_update_selects_animation:
  "(health f \<le> 0 \<longrightarrow>
      Farmer_update dt f = (f, [AnimPlay Body Death (Some False), ControllerDisabled True]))
   \<and> (0 < health f \<and> \<not> isFiring f \<and> \<not> isMoving f \<and> hitTimer f \<le> 0 \<longrightarrow>
        snd (Farmer_update dt f) = [AnimPlay Weapon Idle None, AnimPlay Body Idle None, RadarUpdateBlip])
   \<and> (0 < health f \<and> \<not> isFiring f \<and> \<not> (\<not> isMoving f \<and> hitTimer f \<le> 0) \<longrightarrow>
        snd (Farmer_update dt f) = [AnimPlay Weapon Idle None, RadarUpdateBlip])
   \<and> (0 < health f \<and> isFiring f \<longrightarrow> snd (Farmer_update dt f) = [RadarUpdateBlip])
   \<and> (0 < health f \<longrightarrow> fst (Farmer_update dt f) = f\<lparr>hitTimer := hitTimer f - dt\<rparr>)"
  by (simp add: Farmer_update_def)

theorem Farmer_update_selects_animation_witness:
  "health (exampleFarmer 0 100) \<le> 0
   \<and> Farmer_update (1/4) (exampleFarmer 0 100) =
       (exampleFarmer 0 100, [AnimPlay Body Death (Some False), ControllerDisabled True])
   \<and> 0 < health (exampleFarmer 50 100) \<and> \<not> isFiring (exampleFarmer 50 100)
   \<and> \<not> isMoving (exampleFarmer 50 100) \<and> hitTimer (exampleFarmer 50 100) \<le> 0
   \<and> snd (Farmer_update (1/4) (exampleFarmer 50 100)) =
       [AnimPlay Weapon Idle None, AnimPlay Body Idle None, RadarUpdateBlip]
   \<and> isMoving ((exampleFarmer 50 100)\<lparr>isMoving := True\<rparr>)
   \<and> snd (Farmer_update (1/4) ((exampleFarmer 50 100)\<lparr>isMoving := True\<rparr>)) =
       [AnimPlay Weapon Idle None, RadarUpdateBlip]
   \<and> isFiring ((exampleFarmer 50 100)\<lparr>isFiring := True\<rparr>)
   \<and> snd (Farmer_update (1/4) ((exampleFarmer 50 100)\<lparr>isFiring := True\<rparr>)) = [RadarUpdateBlip]
   \<and> hitTimer (fst (Farmer_update (1/4) (exampleFarmer 50 100))) = - (1/4)"
  using Farmer_update_selects_animation [of "exampleFarmer 0 100" "1/4"]
        Farmer_update_selects_animation [of "exampleFarmer 50 100" "1/4"]
        Farmer_update_selects_animation [of "(exampleFarmer 50 100)\<lparr>isMoving := True\<rparr>" "1/4"]
        Farmer_update_selects_animation [of "(exampleFarmer 50 100)\<lparr>isFiring := True\<rparr>" "1/4"]
  by (simp add: exampleFarmer_def)

subsection \<open>The weapon cooldown\<close>

lemma bullets_append: "bullets (xs @ ys) = bullets xs + bullets ys"
  by (simp add: bullets_def)

lemma onFire_bullets:
  "bullets (snd (onFire f)) = (if gunCooldown f then 0 else 1) \<and> gunCooldown (fst (onFire f))"
  by (simp add: onFire_def bullets_def Let_def)

lemma handle_cooldown:
  assumes "e \<noteq> EvCooldownElapsed"
  shows "bullets (snd (handle nav e f)) \<le> (if gunCooldown f then 0 else 1)
    \<and> (gunCooldown f \<or> 0 < bullets (snd (handle nav e f)) \<longrightarrow> gunCooldown (fst (handle nav e f)))"
proof (cases e)
  case EvFire
  then show ?thesis using onFire_bullets [of f] by simp
next
  case EvCooldownElapsed
  with assms show ?thesis by simp
next
  case (EvUpdate dt)
  then show ?thesis by (simp add: Farmer_update_def bullets_def Let_def)
next
  case (EvCollide c)
  then show ?thesis by (simp add: onCollide_def bullets_def split: collidable.splits)
qed (simp_all add: onMove_def onMoveEnd_def onFireEnd_def onRotate_def
      modifyHealth_def modifyMaxHealth_def modifyMovementSpeed_def modifyWeaponDamage_def
      modifyWeaponRange_def modifyWeaponSpeed_def bullets_def Let_def)


lemma run_cooldown:
  "EvCooldownElapsed \<notin> set es \<Longrightarrow>
     bullets (snd (run nav es f)) \<le> (if gunCooldown f then 0 else 1)
     \<and> (gunCooldown f \<or> 0 < bullets (snd (run nav es f)) \<longrightarrow> gunCooldown (fst (run nav es f)))"
proof (induction es arbitrary: f)
  case Nil
  then show ?case by (simp add: bullets_def)
next
  case (Cons e es)
  obtain f1 out1 where h: "handle nav e f = (f1, out1)" by (cases "handle nav e f")
  obtain f2 out2 where r: "run nav es f1 = (f2, out2)" by (cases "run nav es f1")
  from Cons.prems have ne: "e \<noteq> EvCooldownElapsed" and rest: "EvCooldownElapsed \<notin> set es"
    by auto
  from handle_cooldown [OF ne, where nav = nav and f = f] h
  have b1: "bullets out1 \<le> (if gunCooldown f then 0 else 1)"
    and c1: "gunCooldown f \<or> 0 < bullets out1 \<longrightarrow> gunCooldown f1"
    by simp_all
  from Cons.IH [OF rest, of f1] r
  have b2: "bullets out2 \<le> (if gunCooldown f1 then 0 else 1)"
    and c2: "gunCooldown f1 \<or> 0 < bullets out2 \<longrightarrow> gunCooldown f2"
    by simp_all
  have run_eq: "run nav (e # es) f = (f2, out1 @ out2)"
    using h r by simp
  have total: "bullets (out1 @ out2) \<le> (if gunCooldown f then 0 else 1)"
  proof (cases "gunCooldown f1")
    case True
    with b2 have "bullets out2 = 0" by simp
    with b1 show ?thesis by (simp add: bullets_append)
  next
    case False
    with c1 have "\<not> gunCooldown f" and "bullets out1 = 0" by auto
    with b2 False show ?thesis by (simp add: bullets_append)
  qed
  have final: "gunCooldown f \<or> 0 < bullets (out1 @ out2) \<longrightarrow> gunCooldown f2"
    using c1 c2 by (auto simp add: bullets_append)
  from run_eq total final show ?case by simp
qed

text \<open>
  C6. An \<open>onFire\<close> event handled while the cooldown flag is set creates no Bullet and
  leaves the flag set; handled while the flag is clear it creates one Bullet and sets the
  flag. Over any sequence of events on the Farmer in which the deferred cooldown callback
  does not run, at most one Bullet is created, none if the flag was set at the start, and
  the flag is set at the end once a Bullet has been created: two Bullets are never created
  without the callback in between.
\<close>

theorem cooldown_gates_bullets:
  "(gunCooldown f \<longrightarrow> bullets (snd (onFire f)) = 0 \<and> gunCooldown (fst (onFire f)))
   \<and> (\<not> gunCooldown f \<longrightarrow> bullets (snd (onFire f)) = 1 \<and> gunCooldown (fst (onFire f)))
   \<and> (EvCooldownElapsed \<notin> set es \<longrightarrow>
        bullets (snd (run nav es f)) \<le> 1
        \<and> (gunCooldown f \<longrightarrow> bullets (snd (run nav es f)) = 0)
        \<and> (0 < bullets (snd (run nav es f)) \<longrightarrow> gunCooldown (fst (run nav es f))))"
proof -
  have fire: "bullets (snd (onFire f)) = (if gunCooldown f then 0 else 1)"
    and flag: "gunCooldown (fst (onFire f))"
    using onFire_bullets [of f] by simp_all
  have seq: "bullets (snd (run nav es f)) \<le> 1
        \<and> (gunCooldown f \<longrightarrow> bullets (snd (run nav es f)) = 0)
        \<and> (0 < bullets (snd (run nav es f)) \<longrightarrow> gunCooldown (fst (run nav es f)))"
    if "EvCooldownElapsed \<notin> set es"
    using run_cooldown [OF that, of nav f] by (simp split: if_splits)
  from fire flag seq show ?thesis by simp
qed


theorem cooldown_gates_bullets_witness:
  "gunCooldown ((exampleFarmer 50 100)\<lparr>gunCooldown := True\<rparr>)
   \<and> bullets (snd (onFire ((exampleFarmer 50 100)\<lparr>gunCooldown := True\<rparr>))) = 0
   \<and> gunCooldown (fst (onFire ((exampleFarmer 50 100)\<lparr>gunCooldown := True\<rparr>)))
   \<and> \<not> gunCooldown (exampleFarmer 50 100)
   \<and> bullets (snd (onFire (exampleFarmer 50 100))) = 1
   \<and> gunCooldown (fst (onFire (exampleFarmer 50 100)))
   \<and> EvCooldownElapsed \<notin> set [EvFire, EvUpdate (1/60), EvFireEnd, EvFire]
   \<and> bullets (snd (run (\<lambda>p. p) [EvFire, EvUpdate (1/60), EvFireEnd, EvFire] (exampleFarmer 50 100))) = 1
   \<and> gunCooldown (fst (run (\<lambda>p. p) [EvFire, EvUpdate (1/60), EvFireEnd, EvFire] (exampleFarmer 50 100)))"
proof -
  let ?es = "[EvFire, EvUpdate (1/60), EvFireEnd, EvFire]"
  let ?hot = "(exampleFarmer 50 100)\<lparr>gunCooldown := True\<rparr>"
  have hot: "gunCooldown ?hot" and cold: "\<not> gunCooldown (exampleFarmer 50 100)"
    by (simp_all add: exampleFarmer_def)
  have quiet: "EvCooldownElapsed \<notin> set ?es"
    by simp
  have one: "bullets (snd (run (\<lambda>p. p) ?es (exampleFarmer 50 100))) = 1"
    by (simp add: exampleFarmer_def onFire_def onFireEnd_def Farmer_update_def bullets_def Let_def)
  from cooldown_gates_bullets [of ?hot "[]" "\<lambda>p. p"] hot
  have h: "bullets (snd (onFire ?hot)) = 0 \<and> gunCooldown (fst (onFire ?hot))"
    by blast
  from cooldown_gates_bullets [of "exampleFarmer 50 100" ?es "\<lambda>p. p"] cold quiet one
  have c: "bullets (snd (onFire (exampleFarmer 50 100))) = 1
           \<and> gunCooldown (fst (onFire (exampleFarmer 50 100)))
           \<and> gunCooldown (fst (run (\<lambda>p. p) ?es (exampleFarmer 50 100)))"
    by simp
  from hot cold quiet one h c show ?thesis
    by blast
qed


section \<open>Properties of the Garden's spawn points\<close>

lemma js_index_mem: "js_index xs i = Some x \<Longrightarrow> x \<in> set xs"
  by (auto simp add: js_index_def split: if_splits)

lemma retry_free: "retry (Some n) = (\<not> free n)"
  by (simp add: retry_def free_def)

lemma spawnPointLoop_Some:
  "spawnPointLoop pts node draws = Some n \<Longrightarrow>
     free n \<and> (node = Some n \<or> n \<in> set pts)"
proof (induction draws arbitrary: node)
  case Nil
  then show ?case
    by (cases node) (auto simp add: free_def retry_def split: if_splits)
next
  case (Cons r draws)
  show ?case
  proof (cases "retry node")
    case True
    with Cons.prems have "spawnPointLoop pts (js_index pts r) draws = Some n"
      by simp
    from Cons.IH [OF this] show ?thesis
      by (auto dest: js_index_mem)
  next
    case False
    with Cons.prems show ?thesis
      by (cases node) (auto simp add: free_def retry_def)
  qed
qed

text \<open>
  C2. Whenever \<open>getRandomBurrowNode\<close> returns, the node it returns is an element of the
  burrow spawn-point array and has no attached child mesh; likewise \<open>getRandomCarrotNode\<close>
  and the carrot spawn-point array.
\<close>

theorem random_node_is_free_spawn_point:
  "(getRandomBurrowNode g draws = Some n \<longrightarrow> n \<in> set (burrowSpawnPoints g) \<and> childMeshes n = [])
   \<and> (getRandomCarrotNode g draws = Some n \<longrightarrow> n \<in> set (carrotSpawnPoints g) \<and> childMeshes n = [])"
  using spawnPointLoop_Some [of "burrowSpawnPoints g" None draws n]
        spawnPointLoop_Some [of "carrotSpawnPoints g" None draws n]
  by (simp add: getRandomBurrowNode_def getRandomCarrotNode_def free_def)

theorem random_node_is_free_spawn_point_witness:
  "getRandomBurrowNode exampleGarden [0, 5, - 1, 1, 0] = Some (exampleNode ''B1'' [])
   \<and> exampleNode ''B1'' [] \<in> set (burrowSpawnPoints exampleGarden)
   \<and> childMeshes (exampleNode ''B1'' []) = []
   \<and> getRandomCarrotNode exampleGarden [1, 1, 0] = Some (exampleNode ''C0'' [])
   \<and> exampleNode ''C0'' [] \<in> set (carrotSpawnPoints exampleGarden)
   \<and> childMeshes (exampleNode ''C0'' []) = []"
proof -
  have b: "getRandomBurrowNode exampleGarden [0, 5, - 1, 1, 0] = Some (exampleNode ''B1'' [])"
    by (simp add: getRandomBurrowNode_def exampleGarden_def exampleNode_def js_index_def retry_def)
  have c: "getRandomCarrotNode exampleGarden [1, 1, 0] = Some (exampleNode ''C0'' [])"
    by (simp add: getRandomCarrotNode_def exampleGarden_def exampleNode_def js_index_def retry_def)
  from random_node_is_free_spawn_point [of exampleGarden "[0, 5, - 1, 1, 0]" "exampleNode ''B1'' []"]
       random_node_is_free_spawn_point [of exampleGarden "[1, 1, 0]" "exampleNode ''C0'' []"] b c
  show ?thesis by simp
qed

subsection \<open>When the retry loop ends\<close>

text \<open>The loop is still running after the given draws exactly when none of them hit.\<close>

lemma spawnPointLoop_None_iff:
  "retry node \<Longrightarrow> (spawnPointLoop pts node draws = None) = (\<forall>r \<in> set draws. \<not> hit pts r)"
proof (induction draws arbitrary: node)
  case Nil
  then show ?case by simp
next
  case (Cons r draws)
  show ?case
  proof (cases "retry (js_index pts r)")
    case True
    from Cons.IH [OF True] Cons.prems True show ?thesis
      by (simp add: hit_def)
  next
    case False
    then have "spawnPointLoop pts (js_index pts r) draws \<noteq> None"
      by (cases draws) (auto simp add: retry_def split: option.splits)
    with Cons.prems False show ?thesis
      by (simp add: hit_def)
  qed
qed

lemma all_busy_no_hit:
  assumes "\<forall>n \<in> set pts. \<not> free n"
  shows "\<not> hit pts r"
proof (cases "js_index pts r")
  case None
  then show ?thesis by (simp add: hit_def retry_def)
next
  case (Some n)
  then have "n \<in> set pts" by (rule js_index_mem)
  with assms Some show ?thesis by (simp add: hit_def retry_free)
qed

lemma free_gives_hit:
  assumes "n \<in> set pts" and "free n"
  shows "\<exists>r. 0 \<le> r \<and> r \<le> int (length pts) - 1 \<and> hit pts r"
proof -
  from assms(1) obtain i where "i < length pts" and "pts ! i = n"
    by (auto simp add: in_set_conv_nth)
  with assms(2) have "hit pts (int i)" and "0 \<le> int i" and "int i \<le> int (length pts) - 1"
    by (auto simp add: hit_def js_index_def retry_free)
  then show ?thesis by blast
qed

lemma loop_returns_or_not:
  "((\<exists>n \<in> set pts. free n) \<longrightarrow>
      (\<exists>r. 0 \<le> r \<and> r \<le> int (length pts) - 1 \<and> spawnPointLoop pts None [r] \<noteq> None))
   \<and> ((\<forall>n \<in> set pts. \<not> free n) \<longrightarrow> (\<forall>draws. spawnPointLoop pts None draws = None))"
proof -
  have start: "retry None" by (simp add: retry_def)
  have a: "\<exists>r. 0 \<le> r \<and> r \<le> int (length pts) - 1 \<and> spawnPointLoop pts None [r] \<noteq> None"
    if "\<exists>n \<in> set pts. free n"
  proof -
    from that free_gives_hit obtain r where "0 \<le> r" "r \<le> int (length pts) - 1" "hit pts r"
      by blast
    moreover from \<open>hit pts r\<close> have "spawnPointLoop pts None [r] \<noteq> None"
      using spawnPointLoop_None_iff [OF start, of pts "[r]"] by simp
    ultimately show ?thesis
      by blast
  qed
  have b: "spawnPointLoop pts None draws = None" if "\<forall>n \<in> set pts. \<not> free n" for draws
    using spawnPointLoop_None_iff [OF start, of pts draws] all_busy_no_hit [OF that]
    by simp
  from a b show ?thesis by blast
qed

text \<open>
  C10. If some node of the burrow spawn-point array has no attached child mesh, there is a
  draw within \<open>0 .. length - 1\<close>, the range asked of \<open>randomInt\<close>, on which
  \<open>getRandomBurrowNode\<close> returns; if every spawn point has an attached child mesh (or the
  array is empty), the loop has not returned after any finite sequence of draws, whatever
  they are. In general the loop is still running after the given draws exactly when none
  of them has read a free node. The same holds for \<open>getRandomCarrotNode\<close> over the carrot
  spawn-point array.
\<close>

theorem random_node_loop_termination:
  "((\<exists>n \<in> set (burrowSpawnPoints g). free n) \<longrightarrow>
      (\<exists>r. 0 \<le> r \<and> r \<le> int (length (burrowSpawnPoints g)) - 1
           \<and> getRandomBurrowNode g [r] \<noteq> None))
   \<and> ((\<forall>n \<in> set (burrowSpawnPoints g). \<not> free n) \<longrightarrow>
      (\<forall>draws. getRandomBurrowNode g draws = None))
   \<and> (getRandomBurrowNode g draws = None) =
        (\<forall>r \<in> set draws. \<not> hit (burrowSpawnPoints g) r)
   \<and> ((\<exists>n \<in> set (carrotSpawnPoints g). free n) \<longrightarrow>
      (\<exists>r. 0 \<le> r \<and> r \<le> int (length (carrotSpawnPoints g)) - 1
           \<and> getRandomCarrotNode g [r] \<noteq> None))
   \<and> ((\<forall>n \<in> set (carrotSpawnPoints g). \<not> free n) \<longrightarrow>
      (\<forall>draws. getRandomCarrotNode g draws = None))
   \<and> (getRandomCarrotNode g draws = None) =
        (\<forall>r \<in> set draws. \<not> hit (carrotSpawnPoints g) r)"
proof -
  have start: "retry None"
    by (simp add: retry_def)
  note b = loop_returns_or_not [of "burrowSpawnPoints g"]
    and c = loop_returns_or_not [of "carrotSpawnPoints g"]
    and bi = spawnPointLoop_None_iff [OF start, of "burrowSpawnPoints g" draws]
    and ci = spawnPointLoop_None_iff [OF start, of "carrotSpawnPoints g" draws]
  from b c bi ci show ?thesis
    unfolding getRandomBurrowNode_def getRandomCarrotNode_def
    by blast
qed

theorem random_node_loop_termination_witness:
  "(\<exists>n \<in> set (burrowSpawnPoints exampleGarden). free n)
   \<and> (\<exists>r. 0 \<le> r \<and> r \<le> int (length (burrowSpawnPoints exampleGarden)) - 1
           \<and> getRandomBurrowNode exampleGarden [r] \<noteq> None)
   \<and> (\<exists>n \<in> set (carrotSpawnPoints exampleGarden). free n)
   \<and> (\<exists>r. 0 \<le> r \<and> r \<le> int (length (carrotSpawnPoints exampleGarden)) - 1
           \<and> getRandomCarrotNode exampleGarden [r] \<noteq> None)
   \<and> \<not> (\<exists>n \<in> set (burrowSpawnPoints fullGarden). free n)
   \<and> \<not> (\<exists>n \<in> set (carrotSpawnPoints fullGarden). free n)
   \<and> getRandomBurrowNode fullGarden [0, 0, 1, 0] = None
   \<and> getRandomCarrotNode fullGarden [0, 0, 1, 0] = None"
proof -
  have fb: "\<exists>n \<in> set (burrowSpawnPoints exampleGarden). free n"
    and fc: "\<exists>n \<in> set (carrotSpawnPoints exampleGarden). free n"
    by (simp_all add: exampleGarden_def exampleNode_def free_def)
  have nb: "\<forall>n \<in> set (burrowSpawnPoints fullGarden). \<not> free n"
    and nc: "\<forall>n \<in> set (carrotSpawnPoints fullGarden). \<not> free n"
    by (simp_all add: fullGarden_def exampleNode_def free_def)
  from random_node_loop_termination [of exampleGarden] fb fc
  have e: "(\<exists>r. 0 \<le> r \<and> r \<le> int (length (burrowSpawnPoints exampleGarden)) - 1
           \<and> getRandomBurrowNode exampleGarden [r] \<noteq> None)
      \<and> (\<exists>r. 0 \<le> r \<and> r \<le> int (length (carrotSpawnPoints exampleGarden)) - 1
           \<and> getRandomCarrotNode exampleGarden [r] \<noteq> None)"
    by blast
  from random_node_loop_termination [of fullGarden] nb nc
  have f: "getRandomBurrowNode fullGarden [0, 0, 1, 0] = None
      \<and> getRandomCarrotNode fullGarden [0, 0, 1, 0] = None"
    by blast
  from fb fc nb nc e f show ?thesis by blast
qed


section \<open>Properties of the Burrows\<close>

subsection \<open>The static list\<close>

lemma Burrow_new_burrows:
  "fst (Burrow_new cfg timeLimit rabbitFreq randomRange modifier parent w) = next_ref w"
  "burrows (snd (Burrow_new cfg timeLimit rabbitFreq randomRange modifier parent w)) = burrows w @ [next_ref w]"
  "next_ref (snd (Burrow_new cfg timeLimit rabbitFreq randomRange modifier parent w)) = Suc (next_ref w)"
  by (simp_all add: Burrow_new_def modifyDifficulty_def Let_def)

lemma Burrow_new_registry_ok:
  assumes "registry_ok w"
  shows "registry_ok (snd (Burrow_new cfg timeLimit rabbitFreq randomRange modifier parent w))"
    and "fst (Burrow_new cfg timeLimit rabbitFreq randomRange modifier parent w) \<notin> set (burrows w)"
  using assms
  by (auto simp add: registry_ok_def Burrow_new_burrows list_all_iff less_Suc_eq)

lemma filter_others: "x \<notin> set xs \<Longrightarrow> filter (\<lambda>bur. bur \<noteq> x) xs = xs"
  by (induction xs) auto

lemma dispose_set: "set (burrows (dispose this w)) = set (burrows w) - {this}"
  by (auto simp add: dispose_def)

lemma dispose_split:
  assumes "distinct (burrows w)" and "this \<in> set (burrows w)"
  shows "\<exists>xs ys. burrows w = xs @ this # ys \<and> burrows (dispose this w) = xs @ ys"
proof -
  from assms(2) obtain xs ys where split: "burrows w = xs @ this # ys"
    by (auto dest: split_list)
  with assms(1) have "this \<notin> set xs" and "this \<notin> set ys"
    by auto
  then have "filter (\<lambda>bur. bur \<noteq> this) (xs @ this # ys) = xs @ ys"
    by (simp add: filter_others)
  with split show ?thesis
    by (auto simp add: dispose_def)
qed

lemma disposed_append: "disposed (xs @ ys) = disposed xs @ disposed ys"
  by (induction xs rule: disposed.induct) simp_all

lemma disposed_map: "disposed (map RootDispose bs) = bs"
  by (induction bs) simp_all

lemma disposeAll_empties: "burrows (disposeAll w) = []"
proof (induction w rule: disposeAll.induct)
  case (1 w)
  then show ?case
    by (cases "burrows w") (simp_all add: disposeAll.simps [of w])
qed

lemma disposeAll_disposed:
  "set (disposed (trace (disposeAll w))) = set (disposed (trace w)) \<union> set (burrows w)"
proof (induction w rule: disposeAll.induct)
  case (1 w)
  show ?case
  proof (cases "burrows w")
    case Nil
    then show ?thesis by (simp add: disposeAll.simps [of w])
  next
    case (Cons b bs)
    then have "disposeAll w = disposeAll (dispose b w)"
      by (simp add: disposeAll.simps [of w])
    moreover from Cons have "set (disposed (trace (disposeAll (dispose b w)))) =
        set (disposed (trace (dispose b w))) \<union> set (burrows (dispose b w))"
      using "1.IH" by simp
    moreover have "set (disposed (trace (dispose b w))) = set (disposed (trace w)) \<union> {b}"
      by (simp add: dispose_def disposed_append)
    ultimately show ?thesis
      using Cons by (auto simp add: dispose_set)
  qed
qed

lemma disposeAll_trace:
  "distinct (burrows w) \<Longrightarrow> trace (disposeAll w) = trace w @ map RootDispose (burrows w)"
proof (induction w rule: disposeAll.induct)
  case (1 w)
  show ?case
  proof (cases "burrows w")
    case Nil
    then show ?thesis by (simp add: disposeAll.simps [of w])
  next
    case (Cons b bs)
    with "1.prems" have rest: "burrows (dispose b w) = bs" and d: "distinct bs"
      by (simp_all add: dispose_def filter_others)
    from Cons have "disposeAll w = disposeAll (dispose b w)"
      by (simp add: disposeAll.simps [of w])
    moreover from Cons rest d have "trace (disposeAll (dispose b w)) =
        trace (dispose b w) @ map RootDispose bs"
      using "1.IH" by simp
    moreover have "trace (dispose b w) = trace w @ [RootDispose b]"
      by (simp add: dispose_def)
    ultimately show ?thesis
      using Cons by simp
  qed
qed

text \<open>
  C7. The constructor appends the new Burrow to the static list \<open>Burrow._burrows\<close>, and
  the new Burrow was not in the list before. \<open>dispose()\<close> removes that burrow from the list
  and leaves all others: the list loses exactly the one entry, the others keep their
  order. \<open>disposeAll()\<close> ends with the static list empty, having disposed the root of
  every burrow of the list, each once and in the order of the list.
\<close>

theorem burrow_registry:
  "burrows (snd (Burrow_new cfg timeLimit rabbitFreq randomRange modifier parent w)) =
      burrows w @ [fst (Burrow_new cfg timeLimit rabbitFreq randomRange modifier parent w)]
   \<and> (registry_ok w \<longrightarrow>
        registry_ok (snd (Burrow_new cfg timeLimit rabbitFreq randomRange modifier parent w))
        \<and> fst (Burrow_new cfg timeLimit rabbitFreq randomRange modifier parent w) \<notin> set (burrows w))
   \<and> set (burrows (dispose this w)) = set (burrows w) - {this}
   \<and> (distinct (burrows w) \<and> this \<in> set (burrows w) \<longrightarrow>
        (\<exists>xs ys. burrows w = xs @ this # ys \<and> burrows (dispose this w) = xs @ ys))
   \<and> burrows (disposeAll w) = []
   \<and> set (disposed (trace (disposeAll w))) = set (disposed (trace w)) \<union> set (burrows w)
   \<and> (distinct (burrows w) \<longrightarrow> trace (disposeAll w) = trace w @ map RootDispose (burrows w))"
  using Burrow_new_registry_ok [of w cfg timeLimit rabbitFreq randomRange modifier parent]
        dispose_split [of w this] disposeAll_trace [of w]
  by (simp add: Burrow_new_burrows dispose_set disposeAll_empties disposeAll_disposed)


theorem burrow_registry_witness:
  "registry_ok exampleWorld \<and> distinct (burrows exampleWorld) \<and> 1 \<in> set (burrows exampleWorld)
   \<and> burrows (snd (Burrow_new exampleConfig 20 4 (\<lambda>lo hi. lo) 1 (exampleNode ''B1'' []) exampleWorld)) = [0, 1, 2, 3]
   \<and> registry_ok (snd (Burrow_new exampleConfig 20 4 (\<lambda>lo hi. lo) 1 (exampleNode ''B1'' []) exampleWorld))
   \<and> burrows (dispose 1 exampleWorld) = [0, 2]
   \<and> burrows (disposeAll exampleWorld) = []
   \<and> trace (disposeAll exampleWorld) = [RootDispose 0, RootDispose 1, RootDispose 2]"
proof -
  have ok: "registry_ok exampleWorld"
    and d: "distinct (burrows exampleWorld)"
    and m: "1 \<in> set (burrows exampleWorld)"
    by (simp_all add: registry_ok_def exampleWorld_def)
  have new: "fst (Burrow_new exampleConfig 20 4 (\<lambda>lo hi. lo) 1 (exampleNode ''B1'' []) exampleWorld) = 3"
    by (simp add: Burrow_new_def Let_def exampleWorld_def)
  have del: "burrows (dispose 1 exampleWorld) = [0, 2]"
    by (simp add: dispose_def exampleWorld_def)
  note r = burrow_registry [of exampleConfig 20 4 "\<lambda>lo hi. lo" 1 "exampleNode ''B1'' []" exampleWorld 1]
  from r new have "burrows (snd (Burrow_new exampleConfig 20 4 (\<lambda>lo hi. lo) 1 (exampleNode ''B1'' []) exampleWorld)) = [0, 1, 2, 3]"
    by (simp add: exampleWorld_def)
  moreover from r ok have "registry_ok (snd (Burrow_new exampleConfig 20 4 (\<lambda>lo hi. lo) 1 (exampleNode ''B1'' []) exampleWorld))"
    by blast
  moreover from r have "burrows (disposeAll exampleWorld) = []"
    by blast
  moreover from r d have "trace (disposeAll exampleWorld) = trace exampleWorld @ map RootDispose (burrows exampleWorld)"
    by blast
  then have "trace (disposeAll exampleWorld) = [RootDispose 0, RootDispose 1, RootDispose 2]"
    by (simp add: exampleWorld_def)
  ultimately show ?thesis
    using ok d m del by blast
qed

subsection \<open>One update of one burrow\<close>


lemma updated_append: "updated (xs @ ys) = updated xs @ updated ys"
  by (induction xs rule: updated.induct) simp_all



text \<open>
  A burrow whose root has been disposed before its deadline, and whose spawn timer then
  runs out, is outside C4: \<open>update()\<close> takes the delta time off the timer and throws when
  it reads the position of the missing parent. No rabbit is created and the timer is not
  set anew. Here burrow 2 of the example world is disposed and then updated.
\<close>

lemma Burrow_update_after_dispose:
  "\<not> disposeTime (objs w this) < time w \<and> spawnTimer (objs w this) - deltaTime w \<le> 0
     \<and> root_parent (objs w this) = None \<Longrightarrow>
   Burrow_update freq this w =
     Inl (TypeError,
          w\<lparr>trace := trace w @ [UpdateCall this],
            objs := (objs w)(this := (objs w this)
                      \<lparr>spawnTimer := spawnTimer (objs w this) - deltaTime w\<rparr>)\<rparr>)"
  by (simp add: Burrow_update_def Let_def)

lemma Burrow_update_after_dispose_example:
  "threw (Burrow_update 7 2 (dispose 2 exampleWorld))
   \<and> spawned (trace (world_after (Burrow_update 7 2 (dispose 2 exampleWorld)))) = []
   \<and> spawnTimer (objs (world_after (Burrow_update 7 2 (dispose 2 exampleWorld))) 2) = - (1/4)"
  by (simp add: Burrow_update_def dispose_def threw_def world_after_def exampleWorld_def
      exampleBurrow_def Let_def)

subsection \<open>Updating all burrows\<close>

text \<open>
  C3 fails on the code. With three burrows in the static list, of which the first has
  passed its deadline, \<open>updateAll()\<close> enters \<open>update()\<close> of the first and of the third
  only: the first disposes itself, the list shrinks under the running index, and the
  second burrow is skipped, its spawn timer left as it was. Nothing is thrown.
\<close>

theorem updateAll_skips_after_dispose:
  "burrows exampleWorld = [0, 1, 2]
   \<and> \<not> threw (updateAll (\<lambda>i. 7) exampleWorld)
   \<and> updated (trace (world_after (updateAll (\<lambda>i. 7) exampleWorld))) = [0, 2]
   \<and> burrows (world_after (updateAll (\<lambda>i. 7) exampleWorld)) = [1, 2]
   \<and> spawnTimer (objs exampleWorld 1) = 3
   \<and> spawnTimer (objs (world_after (updateAll (\<lambda>i. 7) exampleWorld)) 1) = 3"
  by (simp add: updateAll_def updateAll_loop.simps Burrow_update_def dispose_def
      threw_def world_after_def exampleWorld_def exampleBurrow_def examplePoint_def Let_def)

text \<open>
  When no burrow of the list has passed its deadline and every root in the list still
  has its parent, \<open>updateAll()\<close> enters \<open>update()\<close> once for every burrow of the list, in
  the order of the list, and nothing is thrown.
\<close>

lemma live_update:
  assumes "\<not> disposeTime (objs w this) < time w" and "root_parent (objs w this) \<noteq> None"
  shows "\<exists>w'. Burrow_update freq this w = Inr w'
      \<and> burrows w' = burrows w \<and> time w' = time w
      \<and> (\<forall>r. disposeTime (objs w' r) = disposeTime (objs w r))
      \<and> (\<forall>r. root_parent (objs w' r) = root_parent (objs w r))
      \<and> updated (trace w') = updated (trace w) @ [this]"
  using assms by (auto simp add: Burrow_update_def Let_def updated_append)

lemma updateAll_loop_without_expiry:
  "\<forall>b \<in> set (burrows w). \<not> disposeTime (objs w b) < time w \<and> root_parent (objs w b) \<noteq> None \<Longrightarrow>
     \<exists>w'. updateAll_loop freqs i w = Inr w'
       \<and> burrows w' = burrows w
       \<and> updated (trace w') = updated (trace w) @ drop i (burrows w)"
proof (induction freqs i w rule: updateAll_loop.induct)
  case (1 freqs i w)
  show ?case
  proof (cases "i < length (burrows w)")
    case False
    then show ?thesis by (simp add: updateAll_loop.simps [of freqs i w])
  next
    case True
    let ?b = "burrows w ! i"
    from True "1.prems" have live: "\<not> disposeTime (objs w ?b) < time w"
      and whole: "root_parent (objs w ?b) \<noteq> None"
      by simp_all
    from live_update [OF live whole, of "freqs i"] obtain w1 where
      step: "Burrow_update (freqs i) ?b w = Inr w1"
      and same: "burrows w1 = burrows w" "time w1 = time w"
        "\<forall>r. disposeTime (objs w1 r) = disposeTime (objs w r)"
        "\<forall>r. root_parent (objs w1 r) = root_parent (objs w r)"
      and seen: "updated (trace w1) = updated (trace w) @ [?b]"
      by blast
    from "1.prems" same have
      "\<forall>b \<in> set (burrows w1). \<not> disposeTime (objs w1 b) < time w1 \<and> root_parent (objs w1 b) \<noteq> None"
      by simp
    from "1.IH" [OF True step this] obtain w2 where
      rest: "updateAll_loop freqs (Suc i) w1 = Inr w2"
      and list: "burrows w2 = burrows w1"
      and calls: "updated (trace w2) = updated (trace w1) @ drop (Suc i) (burrows w1)"
      by blast
    have "updateAll_loop freqs i w = Inr w2"
      using True step rest by (simp add: updateAll_loop.simps [of freqs i w])
    moreover have "updated (trace w2) = updated (trace w) @ drop i (burrows w)"
      using True calls seen same by (simp add: Cons_nth_drop_Suc)
    ultimately show ?thesis
      using list same by simp
  qed
qed

lemma updateAll_without_expiry:
  "\<forall>b \<in> set (burrows w). \<not> disposeTime (objs w b) < time w \<and> root_parent (objs w b) \<noteq> None \<Longrightarrow>
     \<not> threw (updateAll freqs w)
     \<and> updated (trace (world_after (updateAll freqs w))) = updated (trace w) @ burrows w"
  using updateAll_loop_without_expiry [of w freqs 0]
  by (auto simp add: updateAll_def threw_def world_after_def)

end
